theory Spec2Isabelle
  imports Complex_Main "HOL-Library.Sublist"
begin

section \<open>Python values\<close>

text \<open>
  The program is \<^verbatim>\<open>src/app.py\<close>. Exceptions of the source are values of \<open>pyerr\<close>; a
  function that can raise returns \<open>pyerr + 'a\<close>, with \<open>Inl\<close> for the exception.

  A Python \<^verbatim>\<open>str\<close> is a sequence of Unicode code points, so it is a list of naturals
  (\<open>ustr\<close>); a Python \<^verbatim>\<open>bytes\<close> is a list of 8-bit characters (\<open>bytes\<close>), and
  \<open>length\<close> counts bytes as \<^verbatim>\<open>len\<close> does. \<open>ascii\<close> reads an ASCII literal of the
  source as a \<^verbatim>\<open>str\<close>.
\<close>

datatype pyerr = UnicodeEncodeError | TypeError | ValueError | KeyError | AttributeError

type_synonym ustr = "nat list"

type_synonym bytes = "char list"

definition ascii :: "string \<Rightarrow> ustr" where
  "ascii s = map of_char s"

text \<open>\<^verbatim>\<open>str(n)\<close> and \<^verbatim>\<open>"%d" % n\<close> for a non-negative integer: its decimal digits.\<close>

definition digit_char :: "nat \<Rightarrow> char" where
  "digit_char d = ''0123456789'' ! d"

function str_nat :: "nat \<Rightarrow> string" where
  "str_nat n = (if n < 10 then [digit_char n] else str_nat (n div 10) @ [digit_char (n mod 10)])"
  by pat_completeness auto
termination
  by (relation "measure (\<lambda>n. n)") auto

declare str_nat.simps [simp del]

text \<open>\<^verbatim>\<open>f"{k}"\<close> for an integer of either sign.\<close>

definition str_int :: "int \<Rightarrow> string" where
  "str_int k = (if k < 0 then CHR ''-'' # str_nat (nat (- k)) else str_nat (nat k))"

text \<open>
  \<^verbatim>\<open>"%0wd" % n\<close> for a non-negative integer: zero-padded to width \<open>w\<close>, never truncated;
  \<^verbatim>\<open>f"{n:010d}"\<close> is the width 10.
\<close>

definition zpad :: "nat \<Rightarrow> nat \<Rightarrow> string" where
  "zpad w n = replicate (w - length (str_nat n)) CHR ''0'' @ str_nat n"

definition fmt010 :: "nat \<Rightarrow> string" where
  "fmt010 n = zpad 10 n"

text \<open>\<^verbatim>\<open>sep.join(xs)\<close>.\<close>

fun join :: "'a list \<Rightarrow> 'a list list \<Rightarrow> 'a list" where
  "join sep [] = []"
| "join sep [x] = x"
| "join sep (x # y # ys) = x @ sep @ join sep (y # ys)"

text \<open>
  \<^verbatim>\<open>s.replace(old, new)\<close> where \<open>old\<close> is a single character: every occurrence of
  the character is replaced, the others are kept.
\<close>

definition replace1 :: "nat \<Rightarrow> ustr \<Rightarrow> ustr \<Rightarrow> ustr" where
  "replace1 old new s = concat (map (\<lambda>c. if c = old then new else [c]) s)"

text \<open>\<^verbatim>\<open>s.encode("latin-1")\<close>: raises on a code point above 255.\<close>

definition encode_latin1 :: "ustr \<Rightarrow> pyerr + bytes" where
  "encode_latin1 s =
     (if list_all (\<lambda>c. c < 256) s then Inr (map char_of s) else Inl UnicodeEncodeError)"

section \<open>The PDF generator (\<^verbatim>\<open>pdf_bytes\<close>, lines 11-37)\<close>

definition backslash :: nat where
  "backslash = 92"

definition lparen :: nat where
  "lparen = 40"

definition rparen :: nat where
  "rparen = 41"

text \<open>
  Line 13:
  \<^verbatim>\<open>esc = lambda s: s.replace("\\", "\\\\").replace("(", "\\(").replace(")", "\\)")\<close>
\<close>

definition esc :: "ustr \<Rightarrow> ustr" where
  "esc s =
     replace1 rparen [backslash, rparen]
       (replace1 lparen [backslash, lparen]
         (replace1 backslash [backslash, backslash] s))"

text \<open>Line 15: \<^verbatim>\<open>f"1 0 0 1 50 {y-i*lh} Tm ({esc(l)}) Tj"\<close> with \<open>y = 760\<close>, \<open>lh = 14\<close>.\<close>

definition text_op :: "nat \<Rightarrow> ustr \<Rightarrow> ustr" where
  "text_op i l =
     ascii ''1 0 0 1 50 '' @ ascii (str_int (760 - int i * 14)) @ ascii '' Tm ('' @ esc l
       @ ascii '') Tj''"

text \<open>Lines 14-16: the content stream, before encoding.\<close>

definition content_stream :: "ustr list \<Rightarrow> ustr" where
  "content_stream lines =
     ascii ''BT /F1 12 Tf ''
       @ join (ascii '' '') (map (\<lambda>(i, l). text_op i l) (List.enumerate 0 lines))
       @ ascii '' ET''"

text \<open>Lines 19-27: the header and the five objects.\<close>

definition pdf_header :: bytes where
  "pdf_header = ''%PDF-1.4\<newline>''"

definition obj1 :: bytes where
  "obj1 = ''1 0 obj << /Type /Catalog /Pages 2 0 R >> endobj\<newline>''"

definition obj2 :: bytes where
  "obj2 = ''2 0 obj << /Type /Pages /Kids [3 0 R] /Count 1 >> endobj\<newline>''"

definition obj3 :: bytes where
  "obj3 = ''3 0 obj << /Type /Page /Parent 2 0 R /MediaBox [0 0 612 792] ''
            @ ''/Resources << /Font << /F1 4 0 R >> >> /Contents 5 0 R >> endobj\<newline>''"

definition obj4 :: bytes where
  "obj4 = ''4 0 obj << /Type /Font /Subtype /Type1 /BaseFont /Helvetica >> endobj\<newline>''"

definition obj5 :: "bytes \<Rightarrow> bytes" where
  "obj5 sb = ''5 0 obj << /Length '' @ str_nat (length sb) @ '' >> stream\<newline>'' @ sb
               @ ''\<newline>endstream endobj\<newline>''"

definition pdf_objects :: "bytes \<Rightarrow> bytes list" where
  "pdf_objects sb = [pdf_header, obj1, obj2, obj3, obj4, obj5 sb]"

text \<open>
  Lines 29-31: \<^verbatim>\<open>for p in o: off.append(len(out)); out += p\<close>, as a function
  of the state \<open>(off, out)\<close>.
\<close>

fun place :: "bytes list \<Rightarrow> nat list \<times> bytes \<Rightarrow> nat list \<times> bytes" where
  "place [] (off, out) = (off, out)"
| "place (p # ps) (off, out) = place ps (off @ [length out], out @ p)"

text \<open>Lines 33-35: the cross-reference table, from the recorded offsets.\<close>

definition xref_entry :: "nat \<Rightarrow> bytes" where
  "xref_entry n = fmt010 n @ '' 00000 n \<newline>''"

definition xref_table :: "nat list \<Rightarrow> bytes" where
  "xref_table off =
     ''xref\<newline>0 6\<newline>0000000000 65535 f \<newline>''
       @ concat (map (\<lambda>i. xref_entry (off ! i)) [1..<6])"

definition trailer :: "nat \<Rightarrow> bytes" where
  "trailer xref_pos =
     ''trailer << /Size 6 /Root 1 0 R >>\<newline>startxref\<newline>'' @ str_nat xref_pos
       @ ''\<newline>%%EOF''"

definition pdf_bytes :: "ustr list \<Rightarrow> pyerr + bytes" where
  "pdf_bytes lines =
     (case encode_latin1 (content_stream lines) of
        Inl e \<Rightarrow> Inl e
      | Inr sb \<Rightarrow>
          (case place (pdf_objects sb) ([], []) of
             (off, out) \<Rightarrow>
               (let xref_pos = length out
                in Inr (out @ xref_table off @ trailer xref_pos))))"

section \<open>Tables\<close>

text \<open>
  A pandas \<^verbatim>\<open>DataFrame\<close> is its ordered column names and its rows in source order, each
  row holding one cell per column. A cell is a number, one of the three missing markers
  of pandas (\<^verbatim>\<open>NaN\<close>, \<^verbatim>\<open>None\<close>, \<^verbatim>\<open>NaT\<close>), a text or a timestamp. Floats are idealised as
  rationals together with \<^verbatim>\<open>NaN\<close>: rounding and the infinities are outside this model.
  A timestamp is the integer pandas stores, nanoseconds since the epoch, without time
  zone and without the bounds of the 64-bit representation. The column names of a table
  are distinct, as the columns of one SQL table are.
\<close>

datatype cell = Num rat | NaN | PyNone | Txt string | Stamp int | NaT

datatype pyfloat = Fin rat | FNaN

record dataframe =
  columns :: "string list"
  rows :: "cell list list"

text \<open>\<^verbatim>\<open>pd.isna\<close> on a cell.\<close>

fun is_na :: "cell \<Rightarrow> bool" where
  "is_na NaN = True"
| "is_na PyNone = True"
| "is_na NaT = True"
| "is_na _ = False"

text \<open>
  The cell of row \<open>r\<close> under the column named \<open>k\<close>; a row shorter than the header has
  \<^verbatim>\<open>NaN\<close> there. \<open>column df k\<close> is \<^verbatim>\<open>df[k]\<close>.
\<close>

definition cell_at :: "string list \<Rightarrow> cell list \<Rightarrow> string \<Rightarrow> cell" where
  "cell_at cols r k = (case map_of (zip cols r) k of Some c \<Rightarrow> c | None \<Rightarrow> NaN)"

definition column :: "dataframe \<Rightarrow> string \<Rightarrow> cell list" where
  "column df k = map (\<lambda>r. cell_at (columns df) r k) (rows df)"

section \<open>Statistics (\<^verbatim>\<open>stats_for\<close>, lines 53-60)\<close>

text \<open>
  The reductions \<^verbatim>\<open>mean\<close>, \<^verbatim>\<open>max\<close> and \<^verbatim>\<open>min\<close> of a column skip missing cells and
  give \<^verbatim>\<open>NaN\<close> when nothing is left; on a column holding a text, a timestamp or
  \<^verbatim>\<open>NaT\<close> the reduction or the \<^verbatim>\<open>float(...)\<close> around it raises \<^verbatim>\<open>TypeError\<close>.
  \<open>present\<close> collects the numbers a reduction runs over.
\<close>

fun present :: "cell list \<Rightarrow> pyerr + rat list" where
  "present [] = Inr []"
| "present (Num x # cs) = (case present cs of Inl e \<Rightarrow> Inl e | Inr xs \<Rightarrow> Inr (x # xs))"
| "present (NaN # cs) = present cs"
| "present (PyNone # cs) = present cs"
| "present (_ # cs) = Inl TypeError"

definition py_mean :: "rat list \<Rightarrow> pyfloat" where
  "py_mean xs = (if xs = [] then FNaN else Fin (sum_list xs / of_nat (length xs)))"

fun py_max :: "rat list \<Rightarrow> pyfloat" where
  "py_max [] = FNaN"
| "py_max (x # xs) = Fin (fold max xs x)"

fun py_min :: "rat list \<Rightarrow> pyfloat" where
  "py_min [] = FNaN"
| "py_min (x # xs) = Fin (fold min xs x)"

type_synonym stat = "pyfloat \<times> pyfloat \<times> pyfloat"

text \<open>Line 57: \<^verbatim>\<open>(float(df[k].mean()), float(df[k].max()), float(df[k].min()))\<close>.\<close>

definition series_stats :: "cell list \<Rightarrow> pyerr + stat" where
  "series_stats cs =
     (case present cs of Inl e \<Rightarrow> Inl e | Inr xs \<Rightarrow> Inr (py_mean xs, py_max xs, py_min xs))"

text \<open>Lines 55-59: the loop over the metric names, with the dictionary \<open>out\<close> as state.\<close>

fun stats_loop :: "dataframe \<Rightarrow> string list \<Rightarrow> (string \<rightharpoonup> stat) \<Rightarrow> pyerr + (string \<rightharpoonup> stat)" where
  "stats_loop df [] out = Inr out"
| "stats_loop df (k # ks) out =
     (if k \<in> set (columns df) \<and> length (rows df) > 0
      then (case series_stats (column df k) of
              Inl e \<Rightarrow> Inl e
            | Inr s \<Rightarrow> stats_loop df ks (out(k \<mapsto> s)))
      else stats_loop df ks (out(k \<mapsto> (Fin 0, Fin 0, Fin 0))))"

definition metrics :: "string list" where
  "metrics = [''cpu'', ''memory'', ''disk'']"

definition stats_for :: "dataframe \<Rightarrow> pyerr + (string \<rightharpoonup> stat)" where
  "stats_for df = stats_loop df metrics Map.empty"

section \<open>Alert highlighting (\<^verbatim>\<open>highlight_alerts\<close>, lines 62-74)\<close>

text \<open>
  A row handed to \<^verbatim>\<open>_style\<close> is a pandas \<^verbatim>\<open>Series\<close>: its labels with its values.
  \<^verbatim>\<open>row[col]\<close> is the value under the label; under a label that occurs twice it is a
  \<^verbatim>\<open>Series\<close> again, on which \<^verbatim>\<open>float\<close> raises.
\<close>

type_synonym series = "(string \<times> cell) list"

definition row_get :: "series \<Rightarrow> string \<Rightarrow> pyerr + cell" where
  "row_get row col =
     (case filter (\<lambda>(k, v). k = col) row of
        [] \<Rightarrow> Inl KeyError
      | [(k, v)] \<Rightarrow> Inr v
      | _ \<Rightarrow> Inl TypeError)"

text \<open>
  \<^verbatim>\<open>float(v)\<close> on a cell. What Python's \<^verbatim>\<open>float\<close> reads from a text is the parameter
  \<open>float_str\<close> (\<open>None\<close> where it raises \<^verbatim>\<open>ValueError\<close>).
\<close>

fun py_float :: "(string \<Rightarrow> pyfloat option) \<Rightarrow> cell \<Rightarrow> pyerr + pyfloat" where
  "py_float float_str (Num x) = Inr (Fin x)"
| "py_float float_str NaN = Inr FNaN"
| "py_float float_str PyNone = Inl TypeError"
| "py_float float_str (Txt s) =
     (case float_str s of None \<Rightarrow> Inl ValueError | Some v \<Rightarrow> Inr v)"
| "py_float float_str (Stamp t) = Inl TypeError"
| "py_float float_str NaT = Inl TypeError"

text \<open>\<^verbatim>\<open>thr[col]\<close> on the threshold dictionary.\<close>

definition thr_get :: "(string \<rightharpoonup> int) \<Rightarrow> string \<Rightarrow> pyerr + int" where
  "thr_get thr col = (case thr col of None \<Rightarrow> Inl KeyError | Some t \<Rightarrow> Inr t)"

text \<open>\<^verbatim>\<open>x > t\<close> for a float and an integer: false on \<^verbatim>\<open>NaN\<close>.\<close>

fun float_gt :: "pyfloat \<Rightarrow> int \<Rightarrow> bool" where
  "float_gt (Fin x) t = (x > of_int t)"
| "float_gt FNaN t = False"

definition highlight :: string where
  "highlight = ''background-color:#ffd6d6''"

text \<open>Line 68, the expression inside \<^verbatim>\<open>try\<close>: it can raise.\<close>

definition alert_style :: "(string \<Rightarrow> pyfloat option) \<Rightarrow> (string \<rightharpoonup> int) \<Rightarrow> series \<Rightarrow> string \<Rightarrow> pyerr + string" where
  "alert_style float_str thr row col =
     (case row_get row col of
        Inl e \<Rightarrow> Inl e
      | Inr v \<Rightarrow>
          (case py_float float_str v of
             Inl e \<Rightarrow> Inl e
           | Inr x \<Rightarrow>
               (case thr_get thr col of
                  Inl e \<Rightarrow> Inl e
                | Inr t \<Rightarrow> Inr (if float_gt x t then highlight else ''''))))"

text \<open>Lines 66-72: one column; \<^verbatim>\<open>except Exception\<close> turns every raise into the empty style.\<close>

definition style_cell :: "(string \<Rightarrow> pyfloat option) \<Rightarrow> (string \<rightharpoonup> int) \<Rightarrow> series \<Rightarrow> string \<Rightarrow> string" where
  "style_cell float_str thr row col =
     (if col \<in> set metrics
      then (case alert_style float_str thr row col of Inl e \<Rightarrow> '''' | Inr s \<Rightarrow> s)
      else '''')"

text \<open>Lines 64-73: the loop over \<^verbatim>\<open>row.index\<close>, with the list \<open>styles\<close> as state.\<close>

fun style_loop :: "(string \<Rightarrow> pyfloat option) \<Rightarrow> (string \<rightharpoonup> int) \<Rightarrow> series \<Rightarrow> string list \<Rightarrow> string list \<Rightarrow> string list" where
  "style_loop float_str thr row [] styles = styles"
| "style_loop float_str thr row (col # cols) styles =
     style_loop float_str thr row cols (styles @ [style_cell float_str thr row col])"

definition style_row :: "(string \<Rightarrow> pyfloat option) \<Rightarrow> (string \<rightharpoonup> int) \<Rightarrow> series \<Rightarrow> string list" where
  "style_row float_str thr row = style_loop float_str thr row (map fst row) []"

text \<open>Line 74: \<^verbatim>\<open>df.style.apply(_style, axis=1)\<close>, the styles of every row.\<close>

definition highlight_alerts :: "(string \<Rightarrow> pyfloat option) \<Rightarrow> dataframe \<Rightarrow> (string \<rightharpoonup> int) \<Rightarrow> string list list" where
  "highlight_alerts float_str df thr =
     map (\<lambda>r. style_row float_str thr (zip (columns df) r)) (rows df)"

section \<open>The time filter (\<^verbatim>\<open>time_filter_ui\<close>, lines 76-107)\<close>

text \<open>
  A \<^verbatim>\<open>datetime.date\<close>, as the date widgets return it. \<open>str_date\<close> is \<^verbatim>\<open>str(d)\<close>, the
  ISO form; \<open>timestamp_of_date\<close> is \<^verbatim>\<open>pd.Timestamp(d)\<close>, midnight of the day, from the
  day count of the proleptic Gregorian calendar relative to 1970-01-01.
\<close>

record date =
  year :: nat
  month :: nat
  day :: nat

definition str_date :: "date \<Rightarrow> string" where
  "str_date d = zpad 4 (year d) @ ''-'' @ zpad 2 (month d) @ ''-'' @ zpad 2 (day d)"

definition days_from_civil :: "date \<Rightarrow> int" where
  "days_from_civil d =
     (let y = int (year d) - (if month d \<le> 2 then 1 else 0);
          era = y div 400;
          yoe = y - era * 400;
          mp = (int (month d) + 9) mod 12;
          doy = (153 * mp + 2) div 5 + int (day d) - 1;
          doe = yoe * 365 + yoe div 4 - yoe div 100 + doy
      in era * 146097 + doe - 719468)"

definition ns_per_second :: int where
  "ns_per_second = 1000000000"

definition ns_per_day :: int where
  "ns_per_day = 86400 * ns_per_second"

definition timestamp_of_date :: "date \<Rightarrow> int" where
  "timestamp_of_date d = days_from_civil d * ns_per_day"

text \<open>
  What the widgets return during one run: the entry chosen in the select box, the two
  dates of the date inputs, and the clock read by \<^verbatim>\<open>pd.Timestamp.now\<close>.
\<close>

datatype choice = ChAll | Ch7 | Ch14 | Ch30 | Ch90 | ChCustom

record filter_ui =
  choice :: choice
  start_date :: date
  end_date :: date
  now :: int

text \<open>
  Line 104: \<^verbatim>\<open>int(choice.split()[0])\<close> on the entries \<^verbatim>\<open>"7 days"\<close>, \<^verbatim>\<open>"14 days"\<close>,
  \<^verbatim>\<open>"30 days"\<close>, \<^verbatim>\<open>"90 days"\<close>; the line is not reached for the other two entries.
\<close>

fun choice_days :: "choice \<Rightarrow> nat" where
  "choice_days Ch7 = 7"
| "choice_days Ch14 = 14"
| "choice_days Ch30 = 30"
| "choice_days Ch90 = 90"
| "choice_days _ = 0"

text \<open>Line 81: \<^verbatim>\<open>df.dropna(subset=["timestamp"])\<close>.\<close>

definition has_timestamp :: "string list \<Rightarrow> cell list \<Rightarrow> bool" where
  "has_timestamp cols r = (\<not> is_na (cell_at cols r ''timestamp''))"

definition dropna_timestamp :: "dataframe \<Rightarrow> dataframe" where
  "dropna_timestamp df = df\<lparr>rows := filter (has_timestamp (columns df)) (rows df)\<rparr>"

text \<open>
  Lines 101 and 106: \<^verbatim>\<open>df2[mask]\<close> where the mask compares the timestamp column with
  a \<^verbatim>\<open>Timestamp\<close>. The comparison raises \<^verbatim>\<open>TypeError\<close> on a cell that is not a timestamp.
\<close>

fun select_rows :: "(int \<Rightarrow> bool) \<Rightarrow> string list \<Rightarrow> cell list list \<Rightarrow> pyerr + cell list list" where
  "select_rows p cols [] = Inr []"
| "select_rows p cols (r # rs) =
     (case cell_at cols r ''timestamp'' of
        Stamp t \<Rightarrow>
          (case select_rows p cols rs of
             Inl e \<Rightarrow> Inl e
           | Inr ys \<Rightarrow> Inr (if p t then r # ys else ys))
      | _ \<Rightarrow> Inl TypeError)"

definition time_filter_ui :: "filter_ui \<Rightarrow> dataframe \<Rightarrow> pyerr + (dataframe \<times> string)" where
  "time_filter_ui ui df =
     (if ''timestamp'' \<notin> set (columns df) then Inr (df, ''All'')
      else
        (let df2 = dropna_timestamp df in
         if rows df2 = [] then Inr (df, ''All'')
         else if choice ui = ChAll then Inr (df2, ''All'')
         else if choice ui = ChCustom then
           (let start_ts = timestamp_of_date (start_date ui);
                end_ts = timestamp_of_date (end_date ui) + 1 * ns_per_day - 1 * ns_per_second
            in case select_rows (\<lambda>t. t \<ge> start_ts \<and> t \<le> end_ts) (columns df2) (rows df2) of
                 Inl e \<Rightarrow> Inl e
               | Inr f \<Rightarrow>
                   Inr (df2\<lparr>rows := f\<rparr>,
                        ''Custom: '' @ str_date (start_date ui) @ '' to ''
                          @ str_date (end_date ui)))
         else
           (let days = choice_days (choice ui);
                cutoff = now ui - int days * ns_per_day
            in case select_rows (\<lambda>t. t \<ge> cutoff) (columns df2) (rows df2) of
                 Inl e \<Rightarrow> Inl e
               | Inr f \<Rightarrow> Inr (df2\<lparr>rows := f\<rparr>, ''Last '' @ str_nat days @ '' days''))))"

section \<open>Session state and the configuration page (lines 110-111, 177-185)\<close>

text \<open>
  \<^verbatim>\<open>st.session_state\<close> holds references to Python objects, and \<^verbatim>\<open>page_config\<close> writes
  into the dictionary it read from the session. So dictionaries live in a store, from
  addresses to dictionaries, and the session holds the address of its threshold
  dictionary (\<open>None\<close> while the key is not set).
\<close>

record session_state =
  heap :: "nat \<Rightarrow> (string \<rightharpoonup> int)"
  next_addr :: nat
  logged_in :: "bool option"
  thr :: "nat option"

definition empty_session :: session_state where
  "empty_session = \<lparr>heap = (\<lambda>a. Map.empty), next_addr = 0, logged_in = None, thr = None\<rparr>"

text \<open>A dictionary display \<^verbatim>\<open>{...}\<close> makes a new object.\<close>

definition new_dict :: "(string \<rightharpoonup> int) \<Rightarrow> session_state \<Rightarrow> nat \<times> session_state" where
  "new_dict d s =
     (next_addr s, s\<lparr>heap := (heap s)(next_addr s := d), next_addr := Suc (next_addr s)\<rparr>)"

definition default_thr :: "string \<rightharpoonup> int" where
  "default_thr = [''cpu'' \<mapsto> 80, ''memory'' \<mapsto> 85, ''disk'' \<mapsto> 90]"

text \<open>
  Lines 110-111:
  \<^verbatim>\<open>st.session_state.setdefault("logged_in", False)\<close>,
  \<^verbatim>\<open>st.session_state.setdefault("thr", {"cpu": 80, "memory": 85, "disk": 90})\<close>.
\<close>

definition session_defaults :: "session_state \<Rightarrow> session_state" where
  "session_defaults s =
     (let s1 = (if logged_in s = None then s\<lparr>logged_in := Some False\<rparr> else s)
      in case new_dict default_thr s1 of
           (a, s2) \<Rightarrow> (if thr s2 = None then s2\<lparr>thr := Some a\<rparr> else s2))"

text \<open>What the widgets of the configuration page return during one run.\<close>

record config_ui =
  cpu_slider :: int
  memory_slider :: int
  disk_slider :: int
  save_button :: bool

text \<open>
  Lines 180-182, one of them: \<^verbatim>\<open>t[k] = st.slider(..., int(t[k]))\<close>, where \<open>a\<close> is the
  address of \<open>t\<close> and \<open>v\<close> the slider's value. Reading a missing key raises.
\<close>

definition slider_assign :: "nat \<Rightarrow> string \<Rightarrow> int \<Rightarrow> session_state \<Rightarrow> pyerr + session_state" where
  "slider_assign a k v s =
     (case heap s a k of
        None \<Rightarrow> Inl KeyError
      | Some old \<Rightarrow> Inr (s\<lparr>heap := (heap s)(a := (heap s a)(k \<mapsto> v))\<rparr>))"

text \<open>
  Lines 177-185. \<^verbatim>\<open>t = st.session_state.thr\<close> binds \<open>t\<close> to the session's own
  dictionary; \<^verbatim>\<open>st.session_state.thr = t\<close> stores the same address again.
\<close>

definition page_config :: "config_ui \<Rightarrow> session_state \<Rightarrow> pyerr + session_state" where
  "page_config ui s =
     (case thr s of
        None \<Rightarrow> Inl AttributeError
      | Some t \<Rightarrow>
          (case slider_assign t ''cpu'' (cpu_slider ui) s of
             Inl e \<Rightarrow> Inl e
           | Inr s1 \<Rightarrow>
               (case slider_assign t ''memory'' (memory_slider ui) s1 of
                  Inl e \<Rightarrow> Inl e
                | Inr s2 \<Rightarrow>
                    (case slider_assign t ''disk'' (disk_slider ui) s2 of
                       Inl e \<Rightarrow> Inl e
                     | Inr s3 \<Rightarrow>
                         Inr (if save_button ui then s3\<lparr>thr := Some t\<rparr> else s3)))))"

text \<open>The threshold the session holds for a metric: \<^verbatim>\<open>st.session_state.thr[k]\<close>.\<close>

definition stored_threshold :: "session_state \<Rightarrow> string \<Rightarrow> int option" where
  "stored_threshold s k = (case thr s of None \<Rightarrow> None | Some a \<Rightarrow> heap s a k)"

section \<open>Reference definitions, from the specification's words\<close>

text \<open>
  The escaping the specification asks for, character by character: a backslash becomes two
  backslashes, an opening parenthesis a backslash and the parenthesis, a closing one likewise.
\<close>

fun spec_esc_char :: "nat \<Rightarrow> ustr" where
  "spec_esc_char c =
     (if c = backslash then [backslash, backslash]
      else if c = lparen then [backslash, lparen]
      else if c = rparen then [backslash, rparen]
      else [c])"

definition spec_esc :: "ustr \<Rightarrow> ustr" where
  "spec_esc s = concat (map spec_esc_char s)"

text \<open>
  The bytes \<open>p\<close> occur in \<open>out\<close> at byte offset \<open>n\<close>.
\<close>

definition starts_at :: "bytes \<Rightarrow> nat \<Rightarrow> bytes \<Rightarrow> bool" where
  "starts_at out n p = (take (length p) (drop n out) = p)"

text \<open>
  The value of a string of decimal digits, read as the cross-reference table and
  \<^verbatim>\<open>startxref\<close> are read.
\<close>

definition is_digit :: "char \<Rightarrow> bool" where
  "is_digit c = (c \<in> set ''0123456789'')"

definition decimal_value :: "string \<Rightarrow> nat" where
  "decimal_value ds = foldl (\<lambda>a c. 10 * a + (of_char c - 48)) 0 ds"

text \<open>
  A line that \<^verbatim>\<open>encode("latin-1")\<close> accepts: every code point is below 256.
\<close>

definition latin1 :: "ustr \<Rightarrow> bool" where
  "latin1 s = list_all (\<lambda>c. c < 256) s"

text \<open>
  A metric column of the data model holds numbers and missing values only. The values
  present in a column are its numbers; the statistic over them is the mean, the maximum
  and the minimum, and \<^verbatim>\<open>NaN\<close> three times when no value is present.
\<close>

fun numeric_cell :: "cell \<Rightarrow> bool" where
  "numeric_cell (Num x) = True"
| "numeric_cell NaN = True"
| "numeric_cell PyNone = True"
| "numeric_cell _ = False"

definition numeric_column :: "dataframe \<Rightarrow> string \<Rightarrow> bool" where
  "numeric_column df k = list_all numeric_cell (column df k)"

fun present_values :: "cell list \<Rightarrow> rat list" where
  "present_values [] = []"
| "present_values (Num x # cs) = x # present_values cs"
| "present_values (_ # cs) = present_values cs"

definition spec_stat :: "rat list \<Rightarrow> stat" where
  "spec_stat xs =
     (if xs = [] then (FNaN, FNaN, FNaN)
      else (Fin (sum_list xs / of_nat (length xs)), Fin (Max (set xs)), Fin (Min (set xs))))"

text \<open>
  What \<open>stats_for\<close> stores for one metric name (lines 56-59).
\<close>

definition metric_stat :: "dataframe \<Rightarrow> string \<Rightarrow> pyerr + stat" where
  "metric_stat df k =
     (if k \<in> set (columns df) \<and> length (rows df) > 0
      then series_stats (column df k) else Inr (Fin 0, Fin 0, Fin 0))"

text \<open>
  The numeric value of a cell, where it has one: a number, or a text that \<^verbatim>\<open>float\<close>
  reads as a number. \<open>exceeds\<close> is the alert decision of the specification: the value of
  the row under the column is numeric and strictly greater than the column's threshold.
\<close>

fun numeric_value :: "(string \<Rightarrow> pyfloat option) \<Rightarrow> cell \<Rightarrow> rat option" where
  "numeric_value float_str (Num x) = Some x"
| "numeric_value float_str (Txt s) =
     (case float_str s of Some (Fin x) \<Rightarrow> Some x | _ \<Rightarrow> None)"
| "numeric_value float_str _ = None"

definition exceeds :: "(string \<Rightarrow> pyfloat option) \<Rightarrow> (string \<rightharpoonup> int) \<Rightarrow> series \<Rightarrow> string \<Rightarrow> bool" where
  "exceeds float_str thrs row col =
     (case row_get row col of
        Inl e \<Rightarrow> False
      | Inr c \<Rightarrow>
          (case numeric_value float_str c of
             None \<Rightarrow> False
           | Some x \<Rightarrow> (case thrs col of None \<Rightarrow> False | Some t \<Rightarrow> x > of_int t)))"

text \<open>
  A row has a valid timestamp when its timestamp is not missing. The timestamp column as
  \<^verbatim>\<open>load_df\<close> leaves it (line 48, \<^verbatim>\<open>pd.to_datetime(..., errors="coerce")\<close>) holds
  timestamps and \<^verbatim>\<open>NaT\<close> only. The custom window runs from 00:00:00 of the start date to
  23:59:59 of the end date, both included.
\<close>

definition valid_timestamp :: "dataframe \<Rightarrow> cell list \<Rightarrow> bool" where
  "valid_timestamp df r = (\<not> is_na (cell_at (columns df) r ''timestamp''))"

fun datetime_cell :: "cell \<Rightarrow> bool" where
  "datetime_cell (Stamp t) = True"
| "datetime_cell NaT = True"
| "datetime_cell _ = False"

definition datetime_column :: "dataframe \<Rightarrow> bool" where
  "datetime_column df = list_all datetime_cell (column df ''timestamp'')"

definition start_of_day :: "date \<Rightarrow> int" where
  "start_of_day d = timestamp_of_date d"

definition end_of_day :: "date \<Rightarrow> int" where
  "end_of_day d = timestamp_of_date d + (23 * 3600 + 59 * 60 + 59) * ns_per_second"

definition in_custom_window :: "date \<Rightarrow> date \<Rightarrow> dataframe \<Rightarrow> cell list \<Rightarrow> bool" where
  "in_custom_window s e df r =
     (case cell_at (columns df) r ''timestamp'' of
        Stamp t \<Rightarrow> start_of_day s \<le> t \<and> t \<le> end_of_day e
      | _ \<Rightarrow> False)"

section \<open>Example inputs\<close>

definition example_cpu :: dataframe where
  "example_cpu = \<lparr>columns = [''cpu''], rows = [[Num 90], [Num 50], [Num 85]]\<rparr>"

definition example_row :: series where
  "example_row =
     [(''host'', Txt ''db1''), (''cpu'', Num (8001 / 100)), (''memory'', NaN),
      (''disk'', Num 90)]"

definition example_nat :: dataframe where
  "example_nat = \<lparr>columns = [''timestamp'', ''cpu''], rows = [[NaT, Num 90], [NaT, Num 50]]\<rparr>"

definition example_start :: date where
  "example_start = \<lparr>year = 2024, month = 1, day = 10\<rparr>"

definition example_end :: date where
  "example_end = \<lparr>year = 2024, month = 1, day = 12\<rparr>"

definition example_ui :: "choice \<Rightarrow> filter_ui" where
  "example_ui c =
     \<lparr>choice = c, start_date = example_start, end_date = example_end,
      now = 1705104000000000000\<rparr>"

definition example_log :: dataframe where
  "example_log =
     \<lparr>columns = [''timestamp'', ''cpu''],
      rows = [[Stamp 1704844800000000000, Num 10],
              [NaT, Num 40],
              [Stamp 1705103999000000000, Num 20],
              [Stamp 1705104000000000000, Num 30]]\<rparr>"

definition unsaved_ui :: config_ui where
  "unsaved_ui = \<lparr>cpu_slider = 50, memory_slider = 85, disk_slider = 90, save_button = False\<rparr>"

definition example_lines :: "ustr list" where
  "example_lines = [[65, 40, 98, 41, 92, 99]]"

definition example_pdf_out :: bytes where
  "example_pdf_out =
     ''%PDF-1.4\<newline>''
      @ ''1 0 obj << /Type /Catalog /Pages 2 0 R >> endobj\<newline>''
      @ ''2 0 obj << /Type /Pages /Kids [3 0 R] /Count 1 >> endobj\<newline>''
      @ ''3 0 obj << /Type /Page /Parent 2 0 R /MediaBox [0 0 612 792] ''
      @ ''/Resources << /Font << /F1 4 0 R >> >> /Contents 5 0 R >> endobj\<newline>''
      @ ''4 0 obj << /Type /Font /Subtype /Type1 /BaseFont /Helvetica >> endobj\<newline>''
      @ ''5 0 obj << /Length 48 >> stream\<newline>''
      @ ''BT /F1 12 Tf 1 0 0 1 50 760 Tm (A'' @ [CHR 0x5C] @ ''(b'' @ [CHR 0x5C] @ '')''
      @ [CHR 0x5C, CHR 0x5C] @ ''c) Tj ET''
      @ ''\<newline>endstream endobj\<newline>''
      @ ''xref\<newline>0 6\<newline>0000000000 65535 f \<newline>''
      @ ''0000000009 00000 n \<newline>'' @ ''0000000058 00000 n \<newline>''
      @ ''0000000115 00000 n \<newline>'' @ ''0000000241 00000 n \<newline>''
      @ ''0000000311 00000 n \<newline>''
      @ ''trailer << /Size 6 /Root 1 0 R >>\<newline>startxref\<newline>409\<newline>%%EOF''"

section \<open>The PDF generator: escaping and layout\<close>

lemma replace1_Nil: "replace1 old new [] = []"
  by (simp add: replace1_def)

lemma replace1_Cons:
  "replace1 old new (c # s) = (if c = old then new else [c]) @ replace1 old new s"
  by (simp add: replace1_def)

lemma replace1_append: "replace1 old new (s @ t) = replace1 old new s @ replace1 old new t"
  by (simp add: replace1_def)

lemma esc_Cons: "esc (c # s) = spec_esc_char c @ esc s"
  by (simp add: esc_def replace1_Cons replace1_append replace1_Nil backslash_def lparen_def rparen_def)

lemma esc_spec_esc: "esc s = spec_esc s"
proof (induction s)
  case Nil
  show ?case by (simp add: esc_def spec_esc_def replace1_Nil)
next
  case (Cons c s)
  then show ?case by (simp add: esc_Cons spec_esc_def del: spec_esc_char.simps)
qed

lemma sublist_mid: "sublist x m \<Longrightarrow> sublist x (p @ m @ s)"
proof -
  assume "sublist x m"
  then obtain a b where "m = a @ x @ b" by (auto simp: sublist_def)
  then have "p @ m @ s = (p @ a) @ x @ (b @ s)" by simp
  then show ?thesis unfolding sublist_def by blast
qed

lemma sublist_join: "x \<in> set xs \<Longrightarrow> sublist x (join sep xs)"
proof (induction sep xs rule: join.induct)
  case (1 sep)
  then show ?case by simp
next
  case (2 sep y)
  then show ?case by simp
next
  case (3 sep y z zs)
  show ?case
  proof (cases "x = y")
    case True
    then show ?thesis by (simp add: sublist_append_rightI)
  next
    case False
    with 3 have "sublist x (join sep (z # zs))" by simp
    then have "sublist x ((y @ sep) @ join sep (z # zs) @ [])" by (rule sublist_mid)
    then show ?thesis by simp
  qed
qed

lemma text_op_in_ops:
  assumes "i < length lines"
  shows "text_op i (lines ! i) \<in> set (map (\<lambda>(i, l). text_op i l) (List.enumerate 0 lines))"
proof -
  have "(i, lines ! i) \<in> set (List.enumerate 0 lines)"
    using assms by (simp add: in_set_enumerate_eq)
  then show ?thesis by force
qed

lemma sublist_text_op:
  assumes "i < length lines"
  shows "sublist (text_op i (lines ! i)) (content_stream lines)"
proof -
  let ?ops = "map (\<lambda>(i, l). text_op i l) (List.enumerate 0 lines)"
  have "sublist (text_op i (lines ! i)) (join (ascii '' '') ?ops)"
    using assms by (intro sublist_join text_op_in_ops)
  then have "sublist (text_op i (lines ! i))
      (ascii ''BT /F1 12 Tf '' @ join (ascii '' '') ?ops @ ascii '' ET'')"
    by (rule sublist_mid)
  then show ?thesis by (simp add: content_stream_def)
qed

lemma place_objects:
  "place [a, b, c, d, e, f] ([], []) =
     ([0, length a, length a + length b, length a + length b + length c,
       length a + length b + length c + length d,
       length a + length b + length c + length d + length e],
      a @ b @ c @ d @ e @ f)"
  by simp

lemma length_header: "length pdf_header = 9"
  by (simp add: pdf_header_def)

lemma length_obj1: "length obj1 = 49"
  by (simp add: obj1_def)

lemma length_obj2: "length obj2 = 57"
  by (simp add: obj2_def)

lemma length_obj3: "length obj3 = 126"
  by (simp add: obj3_def)

lemma length_obj4: "length obj4 = 70"
  by (simp add: obj4_def)

lemma pdf_bytes_eq:
  "pdf_bytes lines =
     (if list_all (\<lambda>c. c < 256) (content_stream lines)
      then Inr (pdf_header @ obj1 @ obj2 @ obj3 @ obj4 @ obj5 (map char_of (content_stream lines))
             @ xref_table [0, 9, 58, 115, 241, 311]
             @ trailer (311 + length (obj5 (map char_of (content_stream lines)))))
      else Inl UnicodeEncodeError)"
  by (simp add: pdf_bytes_def encode_latin1_def pdf_objects_def place_objects
      length_header length_obj1 length_obj2 length_obj3 length_obj4 Let_def)


lemma latin1_example: "list_all (\<lambda>c. c < 256) (content_stream [[65, 40, 98, 41, 92, 99]])"
  by (simp add: content_stream_def text_op_def ascii_def esc_spec_esc spec_esc_def
      str_int_def str_nat.simps backslash_def lparen_def rparen_def digit_char_def)

text \<open>
  C1. For every list of lines and every line of it, the content stream holds the line's
  positioning and show-text operators with the line escaped as the specification says
  (backslash doubled, each parenthesis preceded by a backslash), and the content stream,
  encoded, is the stream of object 5 of the output. The instance below is the line
  \<^verbatim>\<open>A(b)\c\<close>, embedded as \<^verbatim>\<open>A\(b\)\\c\<close>.
\<close>

theorem pdf_escaped_lines_embedded:
  assumes "pdf_bytes lines = Inr out" and "i < length lines"
  shows "sublist
           (ascii ''1 0 0 1 50 '' @ ascii (str_int (760 - int i * 14)) @ ascii '' Tm (''
              @ spec_esc (lines ! i) @ ascii '') Tj'')
           (content_stream lines)
       \<and> sublist (''stream\<newline>'' @ map char_of (content_stream lines) @ ''\<newline>endstream'') out"
proof
  have "sublist (text_op i (lines ! i)) (content_stream lines)"
    using assms(2) by (rule sublist_text_op)
  then show "sublist
           (ascii ''1 0 0 1 50 '' @ ascii (str_int (760 - int i * 14)) @ ascii '' Tm (''
              @ spec_esc (lines ! i) @ ascii '') Tj'')
           (content_stream lines)"
    by (simp add: text_op_def esc_spec_esc)
next
  let ?sb = "map char_of (content_stream lines)"
  let ?ps = "pdf_header @ obj1 @ obj2 @ obj3 @ obj4 @ ''5 0 obj << /Length ''
               @ str_nat (length ?sb) @ '' >> ''"
  let ?ss = "'' endobj\<newline>'' @ xref_table [0, 9, 58, 115, 241, 311]
               @ trailer (311 + length (obj5 ?sb))"
  from assms(1) have "out = pdf_header @ obj1 @ obj2 @ obj3 @ obj4 @ obj5 ?sb
      @ xref_table [0, 9, 58, 115, 241, 311] @ trailer (311 + length (obj5 ?sb))"
    by (simp add: pdf_bytes_eq split: if_splits)
  then have "out = ?ps @ (''stream\<newline>'' @ ?sb @ ''\<newline>endstream'') @ ?ss"
    by (simp add: obj5_def)
  then show "sublist (''stream\<newline>'' @ ?sb @ ''\<newline>endstream'') out"
    unfolding sublist_def by blast
qed

theorem pdf_escaped_lines_embedded_witness:
  "\<exists>out. pdf_bytes [[65, 40, 98, 41, 92, 99]] = Inr out
     \<and> sublist (ascii ''1 0 0 1 50 760 Tm ('' @ [65, 92, 40, 98, 92, 41, 92, 92, 99] @ ascii '') Tj'')
         (content_stream [[65, 40, 98, 41, 92, 99]])
     \<and> sublist (''stream\<newline>'' @ map char_of (content_stream [[65, 40, 98, 41, 92, 99]])
                  @ ''\<newline>endstream'') out"
proof -
  obtain out where out: "pdf_bytes [[65, 40, 98, 41, 92, 99]] = Inr out"
    using latin1_example by (simp add: pdf_bytes_eq)
  have i: "0 < length [[65, 40, 98, 41, 92, 99 :: nat]]" by simp
  have s: "str_int 760 = ''760''"
    by (simp add: str_int_def str_nat.simps digit_char_def)
  show ?thesis
    using out pdf_escaped_lines_embedded [OF out i]
    by (simp add: s spec_esc_def ascii_def backslash_def lparen_def rparen_def)
qed


lemma upt_1_6: "[1..<6] = [1, 2, 3, 4, 5::nat]"
  by code_simp

lemma xref_table_unfold:
  "xref_table off =
     ''xref\<newline>0 6\<newline>0000000000 65535 f \<newline>''
       @ fmt010 (off ! 1) @ '' 00000 n \<newline>'' @ fmt010 (off ! 2) @ '' 00000 n \<newline>''
       @ fmt010 (off ! 3) @ '' 00000 n \<newline>'' @ fmt010 (off ! 4) @ '' 00000 n \<newline>''
       @ fmt010 (off ! 5) @ '' 00000 n \<newline>''"
  unfolding xref_table_def upt_1_6 by (simp add: xref_entry_def)

lemma starts_at_mid: "n = length ps \<Longrightarrow> starts_at (ps @ p @ ss) n p"
  by (simp add: starts_at_def)

lemma digit_char_cases:
  assumes "d < 10"
  shows "is_digit (digit_char d) \<and> (of_char (digit_char d) :: nat) = 48 + d"
proof -
  from assms have "d \<in> {0, 1, 2, 3, 4, 5, 6, 7, 8, 9}" by auto
  then show ?thesis
    by (auto simp add: digit_char_def is_digit_def)
qed

lemma decimal_value_snoc:
  "decimal_value (ds @ [c]) = 10 * decimal_value ds + (of_char c - 48)"
  by (simp add: decimal_value_def)

lemma str_nat_decimal:
  "str_nat n \<noteq> [] \<and> list_all is_digit (str_nat n) \<and> decimal_value (str_nat n) = n"
proof (induction n rule: str_nat.induct)
  case (1 n)
  show ?case
  proof (cases "n < 10")
    case True
    then have "str_nat n = [digit_char n]" by (simp add: str_nat.simps)
    with True digit_char_cases [of n] show ?thesis
      by (simp add: decimal_value_def)
  next
    case False
    then have s: "str_nat n = str_nat (n div 10) @ [digit_char (n mod 10)]"
      by (simp add: str_nat.simps)
    have d: "n mod 10 < 10" by simp
    from False 1 have ih: "list_all is_digit (str_nat (n div 10))"
      "decimal_value (str_nat (n div 10)) = n div 10" by simp_all
    from ih digit_char_cases [OF d] show ?thesis
      unfolding s by (simp add: decimal_value_snoc)
  qed
qed

lemma fmt010_offsets:
  "fmt010 9 = ''0000000009''" "fmt010 58 = ''0000000058''" "fmt010 115 = ''0000000115''"
  "fmt010 241 = ''0000000241''" "fmt010 311 = ''0000000311''"
  by code_simp+

lemma digit_char_nonzero:
  assumes "0 < d" and "d < 10"
  shows "digit_char d \<noteq> CHR ''0''"
proof -
  from assms have "d \<in> {1, 2, 3, 4, 5, 6, 7, 8, 9}" by auto
  then show ?thesis
    by (auto simp add: digit_char_def)
qed

lemma str_nat_no_leading_zero:
  "0 < n \<Longrightarrow> hd (str_nat n) \<noteq> CHR ''0''"
proof (induction n rule: str_nat.induct)
  case (1 n)
  show ?case
  proof (cases "n < 10")
    case True
    then have "str_nat n = [digit_char n]" by (simp add: str_nat.simps)
    with True "1.prems" digit_char_nonzero [of n] show ?thesis by simp
  next
    case False
    then have s: "str_nat n = str_nat (n div 10) @ [digit_char (n mod 10)]"
      by (simp add: str_nat.simps)
    from False have "0 < n div 10" by simp
    with False 1 have "hd (str_nat (n div 10)) \<noteq> CHR ''0''" by simp
    moreover have "str_nat (n div 10) \<noteq> []"
      using str_nat_decimal [of "n div 10"] by simp
    ultimately show ?thesis unfolding s by simp
  qed
qed

lemma content_stream_nonempty: "content_stream lines \<noteq> []"
  by (simp add: content_stream_def ascii_def)

lemma example_pdf: "pdf_bytes example_lines = Inr example_pdf_out"
  by code_simp

lemma example_xref:
  "drop 409 example_pdf_out =
     ''xref\<newline>0 6\<newline>0000000000 65535 f \<newline>''
      @ ''0000000009 00000 n \<newline>'' @ ''0000000058 00000 n \<newline>''
      @ ''0000000115 00000 n \<newline>'' @ ''0000000241 00000 n \<newline>''
      @ ''0000000311 00000 n \<newline>''
      @ ''trailer << /Size 6 /Root 1 0 R >>\<newline>startxref\<newline>409\<newline>%%EOF''"
  by code_simp

text \<open>
  C2. In the output of \<open>pdf_bytes\<close>, objects 1 to 5 begin at byte offsets 9, 58, 115, 241
  and 311, object 1 being the Catalog. From offset \<open>xref_pos\<close>, where object 5 ends, the
  output is the keyword \<^verbatim>\<open>xref\<close>, the free entry, the five \<^verbatim>\<open>n\<close> entries
  \<^verbatim>\<open>0000000009\<close>, \<^verbatim>\<open>0000000058\<close>, \<^verbatim>\<open>0000000115\<close>, \<^verbatim>\<open>0000000241\<close> and
  \<^verbatim>\<open>0000000311\<close>, the trailer naming object 1 as root, and \<^verbatim>\<open>startxref\<close> followed by
  decimal digits, without leading zero, whose value is \<open>xref_pos\<close>. The length written in
  object 5 is likewise the decimal form of the length of the stream.
\<close>

theorem pdf_xref_offsets:
  assumes "pdf_bytes lines = Inr out"
  shows "\<exists>sb len_digits object5 xref_pos pos_digits.
           encode_latin1 (content_stream lines) = Inr sb
         \<and> starts_at out 9 ''1 0 obj << /Type /Catalog /Pages 2 0 R >> endobj\<newline>''
         \<and> starts_at out 58 ''2 0 obj << /Type /Pages /Kids [3 0 R] /Count 1 >> endobj\<newline>''
         \<and> starts_at out 115
              (''3 0 obj << /Type /Page /Parent 2 0 R /MediaBox [0 0 612 792] ''
                 @ ''/Resources << /Font << /F1 4 0 R >> >> /Contents 5 0 R >> endobj\<newline>'')
         \<and> starts_at out 241
              ''4 0 obj << /Type /Font /Subtype /Type1 /BaseFont /Helvetica >> endobj\<newline>''
         \<and> object5 = ''5 0 obj << /Length '' @ len_digits @ '' >> stream\<newline>'' @ sb
                        @ ''\<newline>endstream endobj\<newline>''
         \<and> list_all is_digit len_digits \<and> hd len_digits \<noteq> CHR ''0''
         \<and> decimal_value len_digits = length sb
         \<and> starts_at out 311 object5
         \<and> xref_pos = 311 + length object5
         \<and> drop xref_pos out =
              ''xref\<newline>0 6\<newline>0000000000 65535 f \<newline>''
                @ ''0000000009 00000 n \<newline>'' @ ''0000000058 00000 n \<newline>''
                @ ''0000000115 00000 n \<newline>'' @ ''0000000241 00000 n \<newline>''
                @ ''0000000311 00000 n \<newline>''
                @ ''trailer << /Size 6 /Root 1 0 R >>\<newline>startxref\<newline>''
                @ pos_digits @ ''\<newline>%%EOF''
         \<and> list_all is_digit pos_digits \<and> hd pos_digits \<noteq> CHR ''0''
         \<and> decimal_value pos_digits = xref_pos"
proof -
  let ?sb = "map char_of (content_stream lines)"
  let ?xp = "311 + length (obj5 ?sb)"
  let ?tail = "xref_table [0, 9, 58, 115, 241, 311] @ trailer ?xp"
  from assms have enc: "encode_latin1 (content_stream lines) = Inr ?sb"
    by (simp add: pdf_bytes_eq encode_latin1_def split: if_splits)
  from assms have out: "out = pdf_header @ obj1 @ obj2 @ obj3 @ obj4 @ obj5 ?sb @ ?tail"
    by (simp add: pdf_bytes_eq split: if_splits)
  have "starts_at (pdf_header @ obj1 @ (obj2 @ obj3 @ obj4 @ obj5 ?sb @ ?tail)) 9 obj1"
    by (rule starts_at_mid) (simp add: length_header)
  then have s1: "starts_at out 9 ''1 0 obj << /Type /Catalog /Pages 2 0 R >> endobj\<newline>''"
    by (simp add: out obj1_def)
  have "starts_at ((pdf_header @ obj1) @ obj2 @ (obj3 @ obj4 @ obj5 ?sb @ ?tail)) 58 obj2"
    by (rule starts_at_mid) (simp add: length_header length_obj1)
  then have "starts_at out 58 obj2"
    by (simp add: out)
  then have s2: "starts_at out 58
      ''2 0 obj << /Type /Pages /Kids [3 0 R] /Count 1 >> endobj\<newline>''"
    by (simp only: obj2_def)
  have "starts_at ((pdf_header @ obj1 @ obj2) @ obj3 @ (obj4 @ obj5 ?sb @ ?tail)) 115 obj3"
    by (rule starts_at_mid) (simp add: length_header length_obj1 length_obj2)
  then have "starts_at out 115 obj3"
    by (simp add: out)
  then have s3: "starts_at out 115
      (''3 0 obj << /Type /Page /Parent 2 0 R /MediaBox [0 0 612 792] ''
         @ ''/Resources << /Font << /F1 4 0 R >> >> /Contents 5 0 R >> endobj\<newline>'')"
    by (simp only: obj3_def)
  have "starts_at ((pdf_header @ obj1 @ obj2 @ obj3) @ obj4 @ (obj5 ?sb @ ?tail)) 241 obj4"
    by (rule starts_at_mid) (simp add: length_header length_obj1 length_obj2 length_obj3)
  then have "starts_at out 241 obj4"
    by (simp add: out)
  then have s4: "starts_at out 241
      ''4 0 obj << /Type /Font /Subtype /Type1 /BaseFont /Helvetica >> endobj\<newline>''"
    by (simp only: obj4_def)
  have "starts_at ((pdf_header @ obj1 @ obj2 @ obj3 @ obj4) @ obj5 ?sb @ ?tail) 311 (obj5 ?sb)"
    by (rule starts_at_mid)
      (simp add: length_header length_obj1 length_obj2 length_obj3 length_obj4)
  then have s5: "starts_at out 311 (obj5 ?sb)"
    by (simp add: out)
  have o5: "obj5 ?sb = ''5 0 obj << /Length '' @ str_nat (length ?sb) @ '' >> stream\<newline>''
      @ ?sb @ ''\<newline>endstream endobj\<newline>''"
    by (simp add: obj5_def)
  have "0 < length ?sb"
    using content_stream_nonempty [of lines] by simp
  then have l0: "hd (str_nat (length ?sb)) \<noteq> CHR ''0''"
    by (rule str_nat_no_leading_zero)
  have l1: "list_all is_digit (str_nat (length ?sb))"
    and l2: "decimal_value (str_nat (length ?sb)) = length ?sb"
    using str_nat_decimal [of "length ?sb"] by simp_all
  have "length (pdf_header @ obj1 @ obj2 @ obj3 @ obj4 @ obj5 ?sb) = ?xp"
    by (simp add: length_header length_obj1 length_obj2 length_obj3 length_obj4)
  then have "drop ?xp ((pdf_header @ obj1 @ obj2 @ obj3 @ obj4 @ obj5 ?sb) @ ?tail) = ?tail"
    by (metis append_eq_conv_conj)
  then have "drop ?xp out = ?tail"
    by (simp add: out)
  then have t: "drop ?xp out =
              ''xref\<newline>0 6\<newline>0000000000 65535 f \<newline>''
                @ ''0000000009 00000 n \<newline>'' @ ''0000000058 00000 n \<newline>''
                @ ''0000000115 00000 n \<newline>'' @ ''0000000241 00000 n \<newline>''
                @ ''0000000311 00000 n \<newline>''
                @ ''trailer << /Size 6 /Root 1 0 R >>\<newline>startxref\<newline>''
                @ str_nat ?xp @ ''\<newline>%%EOF''"
    by (simp add: xref_table_unfold trailer_def fmt010_offsets)
  have p0: "hd (str_nat ?xp) \<noteq> CHR ''0''"
    by (rule str_nat_no_leading_zero) simp
  have p1: "list_all is_digit (str_nat ?xp)" and p2: "decimal_value (str_nat ?xp) = ?xp"
    using str_nat_decimal [of ?xp] by simp_all
  show ?thesis
    apply (rule exI [of _ "?sb"])
    apply (rule exI [of _ "str_nat (length ?sb)"])
    apply (rule exI [of _ "obj5 ?sb"])
    apply (rule exI [of _ "?xp"])
    apply (rule exI [of _ "str_nat ?xp"])
    apply (intro conjI)
                  apply (rule enc)
                 apply (rule s1)
                apply (rule s2)
               apply (rule s3)
              apply (rule s4)
             apply (rule o5)
            apply (rule l1)
           apply (rule l0)
          apply (rule l2)
         apply (rule s5)
        apply (rule refl)
       apply (rule t)
      apply (rule p1)
     apply (rule p0)
    apply (rule p2)
    done
qed

theorem pdf_xref_offsets_witness:
  "pdf_bytes example_lines = Inr example_pdf_out
   \<and> (\<exists>sb len_digits object5 xref_pos pos_digits.
           encode_latin1 (content_stream example_lines) = Inr sb
         \<and> starts_at example_pdf_out 9 ''1 0 obj << /Type /Catalog /Pages 2 0 R >> endobj\<newline>''
         \<and> starts_at example_pdf_out 58 ''2 0 obj << /Type /Pages /Kids [3 0 R] /Count 1 >> endobj\<newline>''
         \<and> starts_at example_pdf_out 115
              (''3 0 obj << /Type /Page /Parent 2 0 R /MediaBox [0 0 612 792] ''
                 @ ''/Resources << /Font << /F1 4 0 R >> >> /Contents 5 0 R >> endobj\<newline>'')
         \<and> starts_at example_pdf_out 241
              ''4 0 obj << /Type /Font /Subtype /Type1 /BaseFont /Helvetica >> endobj\<newline>''
         \<and> object5 = ''5 0 obj << /Length '' @ len_digits @ '' >> stream\<newline>'' @ sb
                        @ ''\<newline>endstream endobj\<newline>''
         \<and> list_all is_digit len_digits \<and> hd len_digits \<noteq> CHR ''0''
         \<and> decimal_value len_digits = length sb
         \<and> starts_at example_pdf_out 311 object5
         \<and> xref_pos = 311 + length object5
         \<and> drop xref_pos example_pdf_out =
              ''xref\<newline>0 6\<newline>0000000000 65535 f \<newline>''
                @ ''0000000009 00000 n \<newline>'' @ ''0000000058 00000 n \<newline>''
                @ ''0000000115 00000 n \<newline>'' @ ''0000000241 00000 n \<newline>''
                @ ''0000000311 00000 n \<newline>''
                @ ''trailer << /Size 6 /Root 1 0 R >>\<newline>startxref\<newline>''
                @ pos_digits @ ''\<newline>%%EOF''
         \<and> list_all is_digit pos_digits \<and> hd pos_digits \<noteq> CHR ''0''
         \<and> decimal_value pos_digits = xref_pos)
   \<and> drop 409 example_pdf_out =
        ''xref\<newline>0 6\<newline>0000000000 65535 f \<newline>''
          @ ''0000000009 00000 n \<newline>'' @ ''0000000058 00000 n \<newline>''
          @ ''0000000115 00000 n \<newline>'' @ ''0000000241 00000 n \<newline>''
          @ ''0000000311 00000 n \<newline>''
          @ ''trailer << /Size 6 /Root 1 0 R >>\<newline>startxref\<newline>409\<newline>%%EOF''"
  apply (intro conjI)
    apply (rule example_pdf)
   apply (rule pdf_xref_offsets [OF example_pdf])
  apply (rule example_xref)
  done

section \<open>Statistics\<close>

lemma present_numeric: "list_all numeric_cell cs \<Longrightarrow> present cs = Inr (present_values cs)"
  by (induction cs rule: present.induct) auto

lemma py_max_Max:
  assumes "xs \<noteq> []"
  shows "py_max xs = Fin (Max (set xs))"
proof (cases xs)
  case Nil
  with assms show ?thesis by simp
next
  case (Cons a l)
  then show ?thesis using Max.set_eq_fold [of a l] by simp
qed

lemma py_min_Min:
  assumes "xs \<noteq> []"
  shows "py_min xs = Fin (Min (set xs))"
proof (cases xs)
  case Nil
  with assms show ?thesis by simp
next
  case (Cons a l)
  then show ?thesis using Min.set_eq_fold [of a l] by simp
qed

lemma series_stats_numeric:
  "list_all numeric_cell cs \<Longrightarrow> series_stats cs = Inr (spec_stat (present_values cs))"
  by (simp add: series_stats_def present_numeric spec_stat_def py_mean_def py_max_Max py_min_Min)

lemma stats_loop_step:
  "stats_loop df (k # ks) out =
     (case metric_stat df k of Inl e \<Rightarrow> Inl e | Inr s \<Rightarrow> stats_loop df ks (out(k \<mapsto> s)))"
  by (simp add: metric_stat_def)

lemma stats_loop_result:
  assumes "\<forall>k\<in>set ks. \<exists>s. metric_stat df k = Inr s"
  shows "\<exists>res. stats_loop df ks out = Inr res
           \<and> (\<forall>k. res k = (if k \<in> set ks then (case metric_stat df k of Inr s \<Rightarrow> Some s | Inl e \<Rightarrow> None) else out k))"
  using assms
proof (induction ks arbitrary: out)
  case Nil
  then show ?case by simp
next
  case (Cons a ks)
  from Cons.prems obtain s where s: "metric_stat df a = Inr s" by auto
  from Cons.prems have "\<forall>k\<in>set ks. \<exists>s. metric_stat df k = Inr s" by simp
  from Cons.IH [OF this, of "out(a \<mapsto> s)"] obtain res where
    res: "stats_loop df ks (out(a \<mapsto> s)) = Inr res"
    and look: "\<forall>k. res k = (if k \<in> set ks then (case metric_stat df k of Inr s \<Rightarrow> Some s | Inl e \<Rightarrow> None) else (out(a \<mapsto> s)) k)"
    by blast
  have "stats_loop df (a # ks) out = Inr res"
    by (simp only: stats_loop_step s sum.case res)
  moreover have "\<forall>k. res k = (if k \<in> set (a # ks) then (case metric_stat df k of Inr s \<Rightarrow> Some s | Inl e \<Rightarrow> None) else out k)"
    using look s by auto
  ultimately show ?case by blast
qed

lemma metric_stat_numeric:
  assumes "k \<in> set (columns df) \<longrightarrow> numeric_column df k"
  shows "metric_stat df k =
           Inr (if k \<in> set (columns df) \<and> rows df \<noteq> []
                then spec_stat (present_values (column df k)) else (Fin 0, Fin 0, Fin 0))"
  using assms by (simp add: metric_stat_def numeric_column_def series_stats_numeric)

lemma example_cpu_numeric:
  "\<forall>m\<in>set metrics. m \<in> set (columns example_cpu) \<longrightarrow> numeric_column example_cpu m"
  by (simp add: metrics_def example_cpu_def numeric_column_def column_def cell_at_def)

text \<open>
  C4. On a table whose metric columns hold numbers and missing values, \<open>stats_for\<close>
  returns a dictionary, and for each of cpu, memory and disk it holds the sentinel
  \<open>(0.0, 0.0, 0.0)\<close> when the column is absent or the table has no rows, and otherwise the
  mean, maximum and minimum of the values present in the column. The instance below is
  the table with the cpu values 90, 50 and 85: mean 75, maximum 90, minimum 50, and the
  sentinel for the absent memory column.
\<close>

theorem stats_for_metric:
  assumes "k \<in> set metrics"
    and "\<forall>m\<in>set metrics. m \<in> set (columns df) \<longrightarrow> numeric_column df m"
  shows "\<exists>out. stats_for df = Inr out
           \<and> out k = Some (if k \<in> set (columns df) \<and> rows df \<noteq> []
                           then spec_stat (present_values (column df k))
                           else (Fin 0, Fin 0, Fin 0))"
proof -
  have all: "\<forall>m\<in>set metrics. \<exists>s. metric_stat df m = Inr s"
  proof
    fix m
    assume "m \<in> set metrics"
    with assms(2) have "m \<in> set (columns df) \<longrightarrow> numeric_column df m" by blast
    from metric_stat_numeric [OF this] show "\<exists>s. metric_stat df m = Inr s" by blast
  qed
  from stats_loop_result [OF all, of Map.empty] obtain res where
    res: "stats_for df = Inr res"
    and look: "\<forall>m. res m = (if m \<in> set metrics then (case metric_stat df m of Inr s \<Rightarrow> Some s | Inl e \<Rightarrow> None) else None)"
    unfolding stats_for_def by auto
  from assms have "metric_stat df k =
           Inr (if k \<in> set (columns df) \<and> rows df \<noteq> []
                then spec_stat (present_values (column df k)) else (Fin 0, Fin 0, Fin 0))"
    by (intro metric_stat_numeric) simp
  with look assms(1) have "res k = Some (if k \<in> set (columns df) \<and> rows df \<noteq> []
                           then spec_stat (present_values (column df k))
                           else (Fin 0, Fin 0, Fin 0))"
    by simp
  with res show ?thesis by blast
qed

theorem stats_for_metric_witness:
  "\<exists>out. stats_for example_cpu = Inr out
     \<and> out ''cpu'' = Some (Fin 75, Fin 90, Fin 50)
     \<and> out ''memory'' = Some (Fin 0, Fin 0, Fin 0)"
proof -
  have cpu: "''cpu'' \<in> set metrics" and mem: "''memory'' \<in> set metrics"
    by (simp_all add: metrics_def)
  from stats_for_metric [OF cpu example_cpu_numeric] stats_for_metric [OF mem example_cpu_numeric]
  show ?thesis
    by (auto simp add: example_cpu_def column_def cell_at_def spec_stat_def)
qed

text \<open>Outside the data model: a text in a metric column makes \<open>stats_for\<close> raise.\<close>

lemma stats_for_text_column:
  "stats_for \<lparr>columns = [''cpu''], rows = [[Txt ''n/a'']]\<rparr> = Inl TypeError"
  by (simp add: stats_for_def metrics_def series_stats_def column_def cell_at_def)

section \<open>Alert highlighting\<close>

lemma style_loop_map:
  "style_loop fs thrs row cols styles = styles @ map (style_cell fs thrs row) cols"
  by (induction cols arbitrary: styles) simp_all

lemma style_row_map: "style_row fs thrs row = map (\<lambda>(k, v). style_cell fs thrs row k) row"
  by (simp add: style_row_def style_loop_map comp_def case_prod_beta)

lemma py_float_gt:
  "(case py_float fs c of Inl e \<Rightarrow> False | Inr x \<Rightarrow> float_gt x t)
     = (case numeric_value fs c of None \<Rightarrow> False | Some x \<Rightarrow> x > of_int t)"
proof (cases c)
  case (Txt s)
  show ?thesis
  proof (cases "fs s")
    case None
    with Txt show ?thesis by simp
  next
    case (Some v)
    with Txt show ?thesis by (cases v) simp_all
  qed
qed simp_all

lemma highlight_nonempty: "highlight \<noteq> []"
  by (simp add: highlight_def)

lemma alert_style_highlight:
  "alert_style fs thrs row col = Inr highlight \<longleftrightarrow> exceeds fs thrs row col"
proof (cases "row_get row col")
  case (Inl e)
  then show ?thesis by (simp add: alert_style_def exceeds_def)
next
  case c: (Inr c)
  show ?thesis
  proof (cases "thrs col")
    case None
    with c show ?thesis
      by (simp add: alert_style_def exceeds_def thr_get_def split: sum.splits option.splits)
  next
    case (Some t)
    have "alert_style fs thrs row col = Inr highlight
        \<longleftrightarrow> (case py_float fs c of Inl e \<Rightarrow> False | Inr x \<Rightarrow> float_gt x t)"
      using c Some highlight_nonempty
      by (auto simp add: alert_style_def thr_get_def split: sum.splits)
    also have "\<dots> \<longleftrightarrow> exceeds fs thrs row col"
      using c Some by (simp add: py_float_gt exceeds_def split: option.splits)
    finally show ?thesis .
  qed
qed

lemma alert_style_values:
  "alert_style fs thrs row col = Inr s \<Longrightarrow> s = highlight \<or> s = []"
  by (auto simp add: alert_style_def split: sum.splits if_splits)

lemma style_cell_eq:
  "style_cell fs thrs row col =
     (if col \<in> set metrics \<and> exceeds fs thrs row col then highlight else [])"
proof (cases "alert_style fs thrs row col")
  case (Inl e)
  then have "\<not> exceeds fs thrs row col"
    using alert_style_highlight [of fs thrs row col] by simp
  with Inl show ?thesis by (simp add: style_cell_def)
next
  case (Inr s)
  show ?thesis
  proof (cases "s = highlight")
    case True
    with Inr have "exceeds fs thrs row col"
      using alert_style_highlight [of fs thrs row col] by simp
    with Inr True show ?thesis by (simp add: style_cell_def)
  next
    case False
    with Inr alert_style_values have "s = []" by blast
    moreover from Inr False have "\<not> exceeds fs thrs row col"
      using alert_style_highlight [of fs thrs row col] by simp
    ultimately show ?thesis using Inr by (simp add: style_cell_def)
  qed
qed



section \<open>The time filter\<close>

lemma dropna_rows:
  "rows (dropna_timestamp df) = filter (valid_timestamp df) (rows df)"
proof -
  have "has_timestamp (columns df) = valid_timestamp df"
    by (rule ext) (simp add: has_timestamp_def valid_timestamp_def)
  then show ?thesis by (simp add: dropna_timestamp_def)
qed

lemma dropna_columns: "columns (dropna_timestamp df) = columns df"
  by (simp add: dropna_timestamp_def)

lemma count_list_filter:
  "count_list (filter P xs) x = (if P x then count_list xs x else 0)"
  by (induction xs) auto

lemma select_rows_datetime:
  assumes "\<forall>r\<in>set rs. \<exists>t. cell_at cols r ''timestamp'' = Stamp t"
  shows "select_rows p cols rs =
     Inr (filter (\<lambda>r. case cell_at cols r ''timestamp'' of Stamp t \<Rightarrow> p t | _ \<Rightarrow> False) rs)"
  using assms
proof (induction rs)
  case Nil
  show ?case by simp
next
  case (Cons r rs)
  then obtain t where "cell_at cols r ''timestamp'' = Stamp t" by auto
  with Cons show ?case by simp
qed

lemma valid_datetime_stamp:
  assumes "datetime_column df" and "r \<in> set (rows df)" and "valid_timestamp df r"
  shows "\<exists>t. cell_at (columns df) r ''timestamp'' = Stamp t"
proof -
  from assms(1,2) have "datetime_cell (cell_at (columns df) r ''timestamp'')"
    by (simp add: datetime_column_def column_def list_all_iff)
  with assms(3) show ?thesis
    by (cases "cell_at (columns df) r ''timestamp''") (simp_all add: valid_timestamp_def)
qed

lemma end_ts_end_of_day:
  "timestamp_of_date e + 1 * ns_per_day - 1 * ns_per_second = end_of_day e"
  by (simp add: end_of_day_def ns_per_day_def ns_per_second_def)

lemma filter_custom:
  "filter (\<lambda>r. case cell_at (columns df) r ''timestamp'' of
                  Stamp t \<Rightarrow> timestamp_of_date s \<le> t
                    \<and> t \<le> timestamp_of_date e + 1 * ns_per_day - 1 * ns_per_second
                | _ \<Rightarrow> False)
     (filter (valid_timestamp df) (rows df))
   = filter (in_custom_window s e df) (rows df)"
proof -
  have eq: "\<And>r. (valid_timestamp df r \<and>
        (case cell_at (columns df) r ''timestamp'' of
           Stamp t \<Rightarrow> timestamp_of_date s \<le> t
             \<and> t \<le> timestamp_of_date e + 1 * ns_per_day - 1 * ns_per_second
         | _ \<Rightarrow> False)) = in_custom_window s e df r"
    unfolding end_ts_end_of_day
    by (auto simp add: in_custom_window_def valid_timestamp_def start_of_day_def
        split: cell.splits)
  show ?thesis
    unfolding filter_filter eq ..
qed

lemma example_days:
  "timestamp_of_date example_start = 1704844800000000000"
  "timestamp_of_date example_end = 1705017600000000000"
  by (simp_all add: example_start_def example_end_def timestamp_of_date_def days_from_civil_def ns_per_day_def ns_per_second_def)

lemma example_str_date:
  "str_date example_start = ''2024-01-10''"
  "str_date example_end = ''2024-01-12''"
  by (simp_all add: example_start_def example_end_def str_date_def zpad_def str_nat.simps digit_char_def)

text \<open>
  C6. When the table has no timestamp column, or every row's timestamp is missing, the
  filter returns the table it was given, with all its rows, and the label \<^verbatim>\<open>All\<close>,
  whatever the widgets return.
\<close>

theorem time_filter_noop:
  assumes "''timestamp'' \<notin> set (columns df)
         \<or> (\<forall>r\<in>set (rows df). is_na (cell_at (columns df) r ''timestamp''))"
  shows "time_filter_ui ui df = Inr (df, ''All'')"
proof (cases "''timestamp'' \<in> set (columns df)")
  case False
  then show ?thesis by (simp add: time_filter_ui_def)
next
  case True
  with assms have "\<forall>r\<in>set (rows df). \<not> valid_timestamp df r"
    by (simp add: valid_timestamp_def)
  then have "rows (dropna_timestamp df) = []"
    by (simp add: dropna_rows)
  with True show ?thesis by (simp add: time_filter_ui_def Let_def)
qed

theorem time_filter_noop_witness:
  "time_filter_ui \<lparr>choice = Ch14, start_date = \<lparr>year = 2024, month = 1, day = 10\<rparr>,
       end_date = \<lparr>year = 2024, month = 1, day = 12\<rparr>, now = 0\<rparr> example_nat
     = Inr (example_nat, ''All'')
   \<and> rows example_nat = [[NaT, Num 90], [NaT, Num 50]]"
proof -
  have "''timestamp'' \<notin> set (columns example_nat)
         \<or> (\<forall>r\<in>set (rows example_nat). is_na (cell_at (columns example_nat) r ''timestamp''))"
    by (simp add: example_nat_def cell_at_def)
  from time_filter_noop [OF this] show ?thesis
    by (simp add: example_nat_def)
qed

text \<open>
  C7. For the choice \<^verbatim>\<open>All\<close> on a table with a timestamp column and at least one valid
  timestamp, the filter returns the label \<^verbatim>\<open>All\<close> and the rows with a valid timestamp:
  they are a subsequence of the source rows, and each of them occurs as often as in the
  source.
\<close>

theorem time_filter_all:
  assumes "choice ui = ChAll"
    and "''timestamp'' \<in> set (columns df)"
    and "\<exists>r\<in>set (rows df). valid_timestamp df r"
  shows "\<exists>f. time_filter_ui ui df = Inr (f, ''All'')
           \<and> columns f = columns df
           \<and> rows f = filter (valid_timestamp df) (rows df)
           \<and> subseq (rows f) (rows df)
           \<and> (\<forall>r. count_list (rows f) r = (if valid_timestamp df r then count_list (rows df) r else 0))"
proof -
  from assms(3) have ne: "rows (dropna_timestamp df) \<noteq> []"
    by (simp add: dropna_rows filter_empty_conv)
  with assms(1,2) have "time_filter_ui ui df = Inr (dropna_timestamp df, ''All'')"
    by (simp add: time_filter_ui_def Let_def)
  moreover have "subseq (rows (dropna_timestamp df)) (rows df)"
    by (simp add: dropna_rows)
  moreover have "\<forall>r. count_list (rows (dropna_timestamp df)) r
      = (if valid_timestamp df r then count_list (rows df) r else 0)"
    by (simp add: dropna_rows count_list_filter)
  ultimately show ?thesis
    using dropna_rows dropna_columns by blast
qed

theorem time_filter_all_witness:
  "\<exists>f. time_filter_ui (example_ui ChAll) example_log = Inr (f, ''All'')
     \<and> columns f = [''timestamp'', ''cpu'']
     \<and> rows f = [[Stamp 1704844800000000000, Num 10],
                 [Stamp 1705103999000000000, Num 20],
                 [Stamp 1705104000000000000, Num 30]]"
proof -
  have a: "choice (example_ui ChAll) = ChAll"
    by (simp add: example_ui_def)
  have b: "''timestamp'' \<in> set (columns example_log)"
    by (simp add: example_log_def)
  have d: "\<exists>r\<in>set (rows example_log). valid_timestamp example_log r"
    by (simp add: valid_timestamp_def example_log_def cell_at_def)
  have e: "filter (valid_timestamp example_log) (rows example_log)
      = [[Stamp 1704844800000000000, Num 10],
         [Stamp 1705103999000000000, Num 20],
         [Stamp 1705104000000000000, Num 30]]"
    by (simp add: valid_timestamp_def example_log_def cell_at_def)
  from time_filter_all [OF a b d] show ?thesis
    by (auto simp add: e) (simp add: example_log_def)
qed

text \<open>
  C3. For the choice \<^verbatim>\<open>Custom\<close> on a table whose timestamp column holds timestamps and
  \<^verbatim>\<open>NaT\<close>, with at least one valid timestamp, the filter returns exactly the rows whose
  timestamp lies between 00:00:00 of the start date and 23:59:59 of the end date, both
  included, in source order, with the label \<^verbatim>\<open>Custom: {start} to {end}\<close>. When the
  start is not after the end, a row at 00:00:00 of the start date and a row at 23:59:59
  of the end date are kept; a row at 00:00:00 of the day after the end date is dropped.
\<close>

theorem time_filter_custom:
  assumes "choice ui = ChCustom"
    and "''timestamp'' \<in> set (columns df)"
    and "datetime_column df"
    and "\<exists>r\<in>set (rows df). valid_timestamp df r"
  shows "\<exists>f. time_filter_ui ui df =
               Inr (f, ''Custom: '' @ str_date (start_date ui) @ '' to '' @ str_date (end_date ui))
           \<and> columns f = columns df
           \<and> rows f = filter (in_custom_window (start_date ui) (end_date ui) df) (rows df)
           \<and> (\<forall>r\<in>set (rows df).
                 start_of_day (start_date ui) \<le> end_of_day (end_date ui)
                 \<and> (cell_at (columns df) r ''timestamp'' = Stamp (start_of_day (start_date ui))
                    \<or> cell_at (columns df) r ''timestamp'' = Stamp (end_of_day (end_date ui)))
                 \<longrightarrow> r \<in> set (rows f))
           \<and> (\<forall>r\<in>set (rows df).
                 cell_at (columns df) r ''timestamp''
                   = Stamp (start_of_day (end_date ui) + ns_per_day)
                 \<longrightarrow> r \<notin> set (rows f))"
proof -
  let ?df2 = "dropna_timestamp df"
  let ?s = "timestamp_of_date (start_date ui)"
  let ?e = "timestamp_of_date (end_date ui) + 1 * ns_per_day - 1 * ns_per_second"
  let ?f = "?df2\<lparr>rows := filter (in_custom_window (start_date ui) (end_date ui) df) (rows df)\<rparr>"
  from assms(4) have ne: "rows ?df2 \<noteq> []"
    by (simp add: dropna_rows filter_empty_conv)
  have "\<forall>r\<in>set (rows ?df2). \<exists>t. cell_at (columns ?df2) r ''timestamp'' = Stamp t"
    using valid_datetime_stamp [OF assms(3)] by (simp add: dropna_rows dropna_columns)
  from select_rows_datetime [OF this, of "\<lambda>t. t \<ge> ?s \<and> t \<le> ?e"]
  have sel: "select_rows (\<lambda>t. t \<ge> ?s \<and> t \<le> ?e) (columns ?df2) (rows ?df2)
      = Inr (filter (in_custom_window (start_date ui) (end_date ui) df) (rows df))"
    unfolding dropna_rows dropna_columns filter_custom .
  then have sel': "select_rows
        (\<lambda>t. ?s \<le> t \<and> t \<le> timestamp_of_date (end_date ui) + ns_per_day - ns_per_second)
        (columns ?df2) (rows ?df2)
      = Inr (filter (in_custom_window (start_date ui) (end_date ui) df) (rows df))"
    by simp
  have res: "time_filter_ui ui df =
      Inr (?f, ''Custom: '' @ str_date (start_date ui) @ '' to '' @ str_date (end_date ui))"
    using assms(1,2) ne
    by (simp add: time_filter_ui_def Let_def sel' del: select_rows.simps)
  have cols: "columns ?f = columns df"
    by (simp add: dropna_columns)
  have rws: "rows ?f = filter (in_custom_window (start_date ui) (end_date ui) df) (rows df)"
    by simp
  have inc: "\<forall>r\<in>set (rows df).
                 start_of_day (start_date ui) \<le> end_of_day (end_date ui)
                 \<and> (cell_at (columns df) r ''timestamp'' = Stamp (start_of_day (start_date ui))
                    \<or> cell_at (columns df) r ''timestamp'' = Stamp (end_of_day (end_date ui)))
                 \<longrightarrow> r \<in> set (rows ?f)"
    by (auto simp add: in_custom_window_def)
  have "start_of_day (end_date ui) + ns_per_day > end_of_day (end_date ui)"
    by (simp add: start_of_day_def end_of_day_def ns_per_day_def ns_per_second_def)
  then have exc: "\<forall>r\<in>set (rows df).
                 cell_at (columns df) r ''timestamp''
                   = Stamp (start_of_day (end_date ui) + ns_per_day)
                 \<longrightarrow> r \<notin> set (rows ?f)"
    by (auto simp add: in_custom_window_def)
  from res cols rws inc exc show ?thesis by blast
qed

theorem time_filter_custom_witness:
  "\<exists>f. time_filter_ui (example_ui ChCustom) example_log
          = Inr (f, ''Custom: 2024-01-10 to 2024-01-12'')
     \<and> rows f = [[Stamp 1704844800000000000, Num 10], [Stamp 1705103999000000000, Num 20]]"
proof -
  have a: "choice (example_ui ChCustom) = ChCustom"
    by (simp add: example_ui_def)
  have b: "''timestamp'' \<in> set (columns example_log)"
    by (simp add: example_log_def)
  have c: "datetime_column example_log"
    by (simp add: datetime_column_def column_def example_log_def cell_at_def)
  have d: "\<exists>r\<in>set (rows example_log). valid_timestamp example_log r"
    by (simp add: valid_timestamp_def example_log_def cell_at_def)
  have e: "filter (in_custom_window (start_date (example_ui ChCustom))
              (end_date (example_ui ChCustom)) example_log) (rows example_log)
      = [[Stamp 1704844800000000000, Num 10], [Stamp 1705103999000000000, Num 20]]"
    by (simp add: in_custom_window_def example_ui_def example_log_def cell_at_def
        start_of_day_def end_of_day_def example_days ns_per_second_def)
  from time_filter_custom [OF a b c d] show ?thesis
    by (auto simp add: e) (simp add: example_ui_def example_str_date)
qed

section \<open>The configuration page\<close>

lemma session_defaults_empty:
  "session_defaults empty_session =
     \<lparr>heap = (\<lambda>a. Map.empty)(0 := default_thr), next_addr = Suc 0,
      logged_in = Some False, thr = Some 0\<rparr>"
  by (simp add: session_defaults_def empty_session_def new_dict_def)

lemma session_defaults_thresholds:
  "stored_threshold (session_defaults empty_session) ''cpu'' = Some 80
   \<and> stored_threshold (session_defaults empty_session) ''memory'' = Some 85
   \<and> stored_threshold (session_defaults empty_session) ''disk'' = Some 90"
  by (simp add: session_defaults_empty stored_threshold_def default_thr_def)

lemma page_config_save_irrelevant:
  "page_config (ui\<lparr>save_button := True\<rparr>) s = page_config (ui\<lparr>save_button := False\<rparr>) s"
  by (auto simp add: page_config_def slider_assign_def split: option.splits sum.splits)

text \<open>
  C10. A new session holds the thresholds 80, 85 and 90. One run of the configuration
  page with the cpu slider at 50 and the save button not pressed leaves the session
  holding the cpu threshold 50: the sliders write into the dictionary the session holds.
\<close>

theorem config_unsaved_slider_overwrites:
  "stored_threshold (session_defaults empty_session) ''cpu'' = Some 80
   \<and> (\<exists>s'. page_config unsaved_ui (session_defaults empty_session) = Inr s'
          \<and> stored_threshold s' ''cpu'' = Some 50)"
  by (simp add: session_defaults_empty stored_threshold_def default_thr_def page_config_def
      slider_assign_def unsaved_ui_def)

section \<open>Which inputs make the pipeline raise\<close>

lemma latin1_append: "latin1 (s @ t) \<longleftrightarrow> latin1 s \<and> latin1 t"
  by (simp add: latin1_def)

lemma latin1_set: "latin1 s \<longleftrightarrow> (\<forall>c\<in>set s. c < 256)"
  by (simp add: latin1_def list_all_iff)

lemma latin1_ascii: "latin1 (ascii s)"
proof -
  have "(of_char c :: nat) < 256" for c
  proof -
    have "(of_char c :: nat) mod 256 < 256" by simp
    then show ?thesis by (simp only: of_char_mod_256)
  qed
  then show ?thesis by (simp add: latin1_set ascii_def)
qed

lemma latin1_esc: "latin1 (esc l) \<longleftrightarrow> latin1 l"
  by (induction l)
    (auto simp add: esc_spec_esc spec_esc_def latin1_def backslash_def lparen_def rparen_def)

lemma latin1_text_op: "latin1 (text_op i l) \<longleftrightarrow> latin1 l"
  by (simp add: text_op_def latin1_append latin1_ascii latin1_esc)

lemma latin1_join:
  "latin1 sep \<Longrightarrow> \<forall>x\<in>set xs. latin1 x \<Longrightarrow> latin1 (join sep xs)"
  by (induction sep xs rule: join.induct) (simp_all add: latin1_append latin1_def)

lemma latin1_content_stream:
  "latin1 (content_stream lines) \<longleftrightarrow> (\<forall>l\<in>set lines. latin1 l)"
proof
  assume all: "latin1 (content_stream lines)"
  show "\<forall>l\<in>set lines. latin1 l"
  proof
    fix l
    assume "l \<in> set lines"
    then obtain i where i: "i < length lines" and l: "l = lines ! i"
      by (auto simp add: in_set_conv_nth)
    from i have "sublist (text_op i (lines ! i)) (content_stream lines)"
      by (rule sublist_text_op)
    then have "set (text_op i l) \<subseteq> set (content_stream lines)"
      unfolding l by (rule set_mono_sublist)
    with all have "latin1 (text_op i l)"
      by (auto simp add: latin1_set)
    then show "latin1 l" by (simp add: latin1_text_op)
  qed
next
  assume all: "\<forall>l\<in>set lines. latin1 l"
  have "\<forall>x\<in>set (map (\<lambda>(i, l). text_op i l) (List.enumerate 0 lines)). latin1 x"
    using all by (auto simp add: latin1_text_op in_set_enumerate_eq)
  then have "latin1 (join (ascii '' '') (map (\<lambda>(i, l). text_op i l) (List.enumerate 0 lines)))"
    by (intro latin1_join latin1_ascii)
  then show "latin1 (content_stream lines)"
    by (simp add: content_stream_def latin1_append latin1_ascii)
qed

lemma pdf_bytes_total_iff:
  "(\<exists>out. pdf_bytes lines = Inr out) \<longleftrightarrow> (\<forall>l\<in>set lines. latin1 l)"
  using latin1_content_stream [of lines] by (simp add: pdf_bytes_eq latin1_def)

lemma pdf_bytes_raises_iff:
  "pdf_bytes lines = Inl UnicodeEncodeError \<longleftrightarrow> \<not> (\<forall>l\<in>set lines. latin1 l)"
  using latin1_content_stream [of lines] by (simp add: pdf_bytes_eq latin1_def)

lemma stats_for_total:
  assumes "\<forall>m\<in>set metrics. m \<in> set (columns df) \<longrightarrow> numeric_column df m"
  shows "\<exists>out. stats_for df = Inr out"
proof -
  have "\<forall>m\<in>set metrics. \<exists>s. metric_stat df m = Inr s"
  proof
    fix m
    assume "m \<in> set metrics"
    with assms have "m \<in> set (columns df) \<longrightarrow> numeric_column df m" by blast
    from metric_stat_numeric [OF this] show "\<exists>s. metric_stat df m = Inr s" by blast
  qed
  from stats_loop_result [OF this, of Map.empty] show ?thesis
    unfolding stats_for_def by blast
qed

lemma select_rows_total:
  assumes "datetime_column df"
  shows "\<exists>f. select_rows p (columns (dropna_timestamp df)) (rows (dropna_timestamp df)) = Inr f"
proof -
  have "\<forall>r\<in>set (rows (dropna_timestamp df)).
      \<exists>t. cell_at (columns (dropna_timestamp df)) r ''timestamp'' = Stamp t"
    using valid_datetime_stamp [OF assms] by (simp add: dropna_rows dropna_columns)
  from select_rows_datetime [OF this] show ?thesis by blast
qed

lemma time_filter_total:
  assumes "''timestamp'' \<in> set (columns df) \<longrightarrow> datetime_column df"
  shows "\<exists>res. time_filter_ui ui df = Inr res"
proof (cases "''timestamp'' \<in> set (columns df)")
  case False
  then show ?thesis by (simp add: time_filter_ui_def)
next
  case True
  with assms have dt: "datetime_column df" by simp
  obtain f where f: "select_rows
      (\<lambda>t. timestamp_of_date (start_date ui) \<le> t
         \<and> t \<le> timestamp_of_date (end_date ui) + ns_per_day - ns_per_second)
      (columns (dropna_timestamp df)) (rows (dropna_timestamp df)) = Inr f"
    using select_rows_total [OF dt] by blast
  obtain g where g: "select_rows
      (\<lambda>t. now ui - int (choice_days (choice ui)) * ns_per_day \<le> t)
      (columns (dropna_timestamp df)) (rows (dropna_timestamp df)) = Inr g"
    using select_rows_total [OF dt] by blast
  show ?thesis
    using True by (simp add: time_filter_ui_def Let_def f g del: select_rows.simps)
qed

text \<open>
  C9, as stated, fails: on a line holding the euro sign (code point 8364) \<open>pdf_bytes\<close>
  raises \<^verbatim>\<open>UnicodeEncodeError\<close>.
\<close>

theorem pdf_bytes_raises_outside_latin1:
  "pdf_bytes [[8364]] = Inl UnicodeEncodeError"
  by (simp add: pdf_bytes_raises_iff latin1_def)

text \<open>
  C9, amended. \<open>pdf_bytes\<close> returns bytes exactly when every character of every line has
  a code point below 256, and raises \<^verbatim>\<open>UnicodeEncodeError\<close> otherwise; \<open>stats_for\<close> returns
  on every table whose metric columns hold numbers and missing values; the time filter
  returns on every table whose timestamp column holds timestamps and \<^verbatim>\<open>NaT\<close>; the alert
  decision gives every column of every row a style, the highlight or the empty one.
\<close>

theorem core_pipeline_returns:
  "((\<exists>out. pdf_bytes lines = Inr out) \<longleftrightarrow> (\<forall>l\<in>set lines. \<forall>c\<in>set l. c < 256))
   \<and> (pdf_bytes lines = Inl UnicodeEncodeError \<longleftrightarrow> \<not> (\<forall>l\<in>set lines. \<forall>c\<in>set l. c < 256))
   \<and> ((\<forall>m\<in>set metrics. m \<in> set (columns df) \<longrightarrow> numeric_column df m)
        \<longrightarrow> (\<exists>out. stats_for df = Inr out))
   \<and> ((''timestamp'' \<in> set (columns df) \<longrightarrow> datetime_column df)
        \<longrightarrow> (\<exists>res. time_filter_ui ui df = Inr res))
   \<and> length (style_row fs thrs row) = length row
   \<and> (\<forall>s\<in>set (style_row fs thrs row). s = highlight \<or> s = [])"
proof -
  have a: "(\<exists>out. pdf_bytes lines = Inr out) \<longleftrightarrow> (\<forall>l\<in>set lines. \<forall>c\<in>set l. c < 256)"
    by (simp add: pdf_bytes_total_iff latin1_set)
  have b: "pdf_bytes lines = Inl UnicodeEncodeError
      \<longleftrightarrow> \<not> (\<forall>l\<in>set lines. \<forall>c\<in>set l. c < 256)"
    by (simp add: pdf_bytes_raises_iff latin1_set)
  have c: "(\<forall>m\<in>set metrics. m \<in> set (columns df) \<longrightarrow> numeric_column df m)
        \<longrightarrow> (\<exists>out. stats_for df = Inr out)"
    using stats_for_total by blast
  have d: "(''timestamp'' \<in> set (columns df) \<longrightarrow> datetime_column df)
        \<longrightarrow> (\<exists>res. time_filter_ui ui df = Inr res)"
    using time_filter_total by blast
  have e: "length (style_row fs thrs row) = length row"
    by (simp add: style_row_map)
  have f: "\<forall>s\<in>set (style_row fs thrs row). s = highlight \<or> s = []"
    by (auto simp add: style_row_map style_cell_eq)
  from a b c d e f show ?thesis by blast
qed

theorem core_pipeline_returns_witness:
  "(\<exists>out. pdf_bytes [[65, 40, 98, 41, 92, 99]] = Inr out)
   \<and> pdf_bytes [[8364]] = Inl UnicodeEncodeError
   \<and> (\<exists>out. stats_for example_log = Inr out)
   \<and> (\<exists>res. time_filter_ui (example_ui Ch7) example_log = Inr res)
   \<and> length (style_row (\<lambda>s. None) default_thr example_row) = 4"
proof -
  have a: "\<forall>l\<in>set [[65, 40, 98, 41, 92, 99 :: nat]]. \<forall>c\<in>set l. c < 256"
    by simp
  have b: "\<not> (\<forall>l\<in>set [[8364 :: nat]]. \<forall>c\<in>set l. c < 256)"
    by simp
  have c: "\<forall>m\<in>set metrics. m \<in> set (columns example_log) \<longrightarrow> numeric_column example_log m"
    by (simp add: metrics_def example_log_def numeric_column_def column_def cell_at_def)
  have d: "''timestamp'' \<in> set (columns example_log) \<longrightarrow> datetime_column example_log"
    by (simp add: datetime_column_def column_def example_log_def cell_at_def)
  have e: "length example_row = 4"
    by (simp add: example_row_def)
  show ?thesis
    using a c d e
      core_pipeline_returns [of "[[65, 40, 98, 41, 92, 99]]" example_log "example_ui Ch7"
        "\<lambda>s. None" default_thr example_row]
      b core_pipeline_returns [of "[[8364]]" example_log "example_ui Ch7"
        "\<lambda>s. None" default_thr example_row]
    by auto
qed

end
